theory Spec2Isabelle
  imports Complex_Main
begin

section \<open>The hybrid vector/metadata store of \<^verbatim>\<open>backend/app/db.py\<close>\<close>

text \<open>
  The module keeps three pieces of process-wide state: the FAISS index
  (\<^verbatim>\<open>index\<close>), the SQLite connection with its two tables (\<^verbatim>\<open>resumes\<close>,
  \<^verbatim>\<open>chunks\<close>) and the allocator cursor \<^verbatim>\<open>_next_id\<close>. The model passes them
  around as one record. Every \<^verbatim>\<open>raise\<close> of the module, and every exception of numpy,
  FAISS and SQLite that the traced paths can reach, is a value of \<open>error\<close>.

  Modelling decisions, each visible in the definitions below:
  \<^item> \<^verbatim>\<open>float32\<close> numbers are modelled as exact reals: rounding and overflow are
    left out, and the theorems below state no tolerance on a computed norm or score;
  \<^item> a Python \<^verbatim>\<open>str\<close> is modelled by its UTF-8 bytes, a lone surrogate code point by
    the three bytes that the \<^verbatim>\<open>surrogatepass\<close> handler gives it; the metadata of a
    document reaches the store already validated, a chunk text is any \<^verbatim>\<open>str\<close>;
  \<^item> the tables are the connection's own view: a statement that ran is visible to
    later statements of the same connection whether or not \<^verbatim>\<open>commit\<close> was reached,
    and the module never rolls back, so \<^verbatim>\<open>conn.commit()\<close> changes nothing here;
  \<^item> \<^verbatim>\<open>save_index\<close> writes a file and changes no state of the process; failures of
    the file system are not modelled;
  \<^item> the \<^verbatim>\<open>skills\<close> column holds \<^verbatim>\<open>json.dumps\<close> of a list of strings and
    \<^verbatim>\<open>fetch_meta\<close> reads it back with \<^verbatim>\<open>json.loads\<close>; the model stores the list.
\<close>

datatype error =
  ValueError | AxisError | AssertionError | IntegrityError | UnicodeEncodeError

subsection \<open>numpy: arrays and \<^verbatim>\<open>_l2_normalize\<close>\<close>

type_synonym vec = "real list"

text \<open>
  An array is one-dimensional or two-dimensional; the value handed to
  \<^verbatim>\<open>_l2_normalize\<close> is a Python list of rows or an array.
\<close>

datatype ndarray = Arr1 vec | Arr2 "vec list"

datatype array_like = PyList "vec list" | NdArray ndarray

text \<open>
  \<^verbatim>\<open>np.asarray(vectors, dtype="float32")\<close>: an array is returned as it is; the empty
  list becomes the one-dimensional array of shape \<^verbatim>\<open>(0,)\<close>; a list of rows of one
  length becomes a two-dimensional array; rows of different lengths raise
  \<^verbatim>\<open>ValueError\<close>.
\<close>

fun np_asarray :: "array_like \<Rightarrow> error + ndarray" where
  "np_asarray (NdArray a) = Inr a"
| "np_asarray (PyList []) = Inr (Arr1 [])"
| "np_asarray (PyList (r # rs)) =
     (if list_all (\<lambda>r'. length r' = length r) rs then Inr (Arr2 (r # rs))
      else Inl ValueError)"

definition l2_norm :: "vec \<Rightarrow> real" where
  "l2_norm v = sqrt (sum_list (map (\<lambda>x. x * x) v))"

definition eps :: real where
  "eps = 1 / 10 ^ 10"

definition normalize_row :: "vec \<Rightarrow> vec" where
  "normalize_row v = map (\<lambda>x. x / (l2_norm v + eps)) v"

text \<open>
  \<^verbatim>\<open>np.linalg.norm(arr, axis=1, keepdims=True)\<close> reduces along the second axis and
  raises \<^verbatim>\<open>AxisError\<close> on a one-dimensional array; then every row is divided by
  its norm plus \<^verbatim>\<open>1e-10\<close>.
\<close>

definition l2_normalize :: "array_like \<Rightarrow> error + vec list" where
  "l2_normalize vectors =
     (case np_asarray vectors of
        Inl e \<Rightarrow> Inl e
      | Inr (Arr1 v) \<Rightarrow> Inl AxisError
      | Inr (Arr2 arr) \<Rightarrow> Inr (map normalize_row arr))"

subsection \<open>FAISS: \<^verbatim>\<open>IndexIDMap(IndexFlatIP(d))\<close>\<close>

text \<open>
  The index holds its dimension and the stored vectors with their identifiers, in
  insertion order. FAISS is a library, not code of the repository; the model follows
  its documented behaviour: \<^verbatim>\<open>add_with_ids\<close> and \<^verbatim>\<open>search\<close> assert the
  dimension of their input (and \<^verbatim>\<open>search\<close> asserts \<^verbatim>\<open>k > 0\<close>), \<^verbatim>\<open>add_with_ids\<close>
  does not look for identifiers already present, \<^verbatim>\<open>remove_ids\<close> ignores absent
  identifiers, and a flat inner-product search returns per query the \<open>k\<close> entries of
  highest score in descending order, filling missing places with
  identifier \<open>-1\<close>. Equal scores are ranked in insertion order here; FAISS leaves
  their order open, and no theorem below depends on it.
\<close>

record faiss_index =
  idx_d :: nat
  idx_entries :: "(int \<times> vec) list"

definition ntotal :: "faiss_index \<Rightarrow> int" where
  "ntotal idx = int (length (idx_entries idx))"

definition add_with_ids :: "faiss_index \<Rightarrow> vec list \<Rightarrow> int list \<Rightarrow> error + faiss_index" where
  "add_with_ids idx x ids =
     (if \<not> list_all (\<lambda>r. length r = idx_d idx) x then Inl AssertionError
      else if length ids \<noteq> length x then Inl AssertionError
      else Inr (idx\<lparr>idx_entries := idx_entries idx @ zip ids x\<rparr>))"

definition remove_ids :: "faiss_index \<Rightarrow> int list \<Rightarrow> faiss_index" where
  "remove_ids idx ids =
     idx\<lparr>idx_entries := filter (\<lambda>e. fst e \<notin> set ids) (idx_entries idx)\<rparr>"

definition inner_product :: "vec \<Rightarrow> vec \<Rightarrow> real" where
  "inner_product u v = sum_list (map2 (*) u v)"

definition neg_inf :: real where
  "neg_inf = - 340282346638528859811704183484516925440"

text \<open>All stored entries with their score against the query, highest score first.\<close>

definition ranked :: "(int \<times> vec) list \<Rightarrow> vec \<Rightarrow> (real \<times> int) list" where
  "ranked es q = sort_key (\<lambda>p. - fst p) (map (\<lambda>e. (inner_product q (snd e), fst e)) es)"

definition flat_ip_search :: "(int \<times> vec) list \<Rightarrow> nat \<Rightarrow> vec \<Rightarrow> (real \<times> int) list" where
  "flat_ip_search es k q =
     (let top = take k (ranked es q)
      in top @ replicate (k - length top) (neg_inf, - 1))"

text \<open>\<^verbatim>\<open>index.search(q, k)\<close> returns the pair \<^verbatim>\<open>(distances, ids)\<close>, one row per query.\<close>

definition faiss_search ::
  "faiss_index \<Rightarrow> vec list \<Rightarrow> int \<Rightarrow> error + (real list list \<times> int list list)" where
  "faiss_search idx q k =
     (if \<not> list_all (\<lambda>r. length r = idx_d idx) q then Inl AssertionError
      else if k \<le> 0 then Inl AssertionError
      else let res = map (flat_ip_search (idx_entries idx) (nat k)) q
           in Inr (map (map fst) res, map (map snd) res))"

subsection \<open>SQLite: the tables \<^verbatim>\<open>resumes\<close> and \<^verbatim>\<open>chunks\<close>\<close>

record meta =
  resume_id :: string
  name :: string
  email :: string
  skills :: "string list"
  years_experience :: int

record resume_row =
  row_name :: string
  row_email :: string
  row_skills :: "string list"
  row_years_experience :: int
  version :: int

text \<open>A row of \<^verbatim>\<open>chunks\<close> is \<^verbatim>\<open>(vector_id, resume_id, text)\<close>; \<^verbatim>\<open>vector_id\<close> is the primary key.\<close>

type_synonym chunk_row = "int \<times> string \<times> string"

record store =
  resumes :: "string \<rightharpoonup> resume_row"
  chunks :: "chunk_row list"
  index :: faiss_index
  next_id :: int

text \<open>
  The upsert statement of \<^verbatim>\<open>insert_resume\<close>: a new row gets
  \<^verbatim>\<open>COALESCE((SELECT version ...) + 1, 1)\<close>, which is 1 when there is no row; on a
  conflict every column is overwritten and \<^verbatim>\<open>version\<close> becomes the old version
  plus one.
\<close>

definition upsert_resume :: "(string \<rightharpoonup> resume_row) \<Rightarrow> meta \<Rightarrow> (string \<rightharpoonup> resume_row)" where
  "upsert_resume tbl m =
     tbl(resume_id m \<mapsto>
       \<lparr>row_name = name m, row_email = email m, row_skills = skills m,
        row_years_experience = years_experience m,
        version = (case tbl (resume_id m) of None \<Rightarrow> 1 | Some r \<Rightarrow> version r + 1)\<rparr>)"

text \<open>
  SQLite stores text as strict UTF-8, and \<^verbatim>\<open>sqlite3\<close> raises
  \<^verbatim>\<open>UnicodeEncodeError\<close> when it binds a \<^verbatim>\<open>str\<close> that holds a lone surrogate
  (\<^verbatim>\<open>U+D800\<close> to \<^verbatim>\<open>U+DFFF\<close>: the byte \<^verbatim>\<open>0xED\<close> followed by a byte from
  \<^verbatim>\<open>0xA0\<close> to \<^verbatim>\<open>0xBF\<close>).
\<close>

fun has_lone_surrogate :: "string \<Rightarrow> bool" where
  "has_lone_surrogate (c1 # c2 # cs) =
     ((of_char c1 = (237 :: nat) \<and> (160 :: nat) \<le> of_char c2 \<and> of_char c2 \<le> (191 :: nat))
      \<or> has_lone_surrogate (c2 # cs))"
| "has_lone_surrogate cs = False"

text \<open>
  \<^verbatim>\<open>conn.executemany("INSERT INTO chunks ...", rows)\<close> runs the statement once per
  row. Binding the parameters of a row raises \<^verbatim>\<open>UnicodeEncodeError\<close> when its text
  cannot be encoded (its \<^verbatim>\<open>resume_id\<close> was bound by the upsert before); a row whose
  \<^verbatim>\<open>vector_id\<close> is already in the table raises \<^verbatim>\<open>IntegrityError\<close>. In both cases the
  rows inserted before it stay in the connection.
\<close>

fun executemany_insert :: "chunk_row list \<Rightarrow> chunk_row list \<Rightarrow> (error + unit) \<times> chunk_row list" where
  "executemany_insert tbl [] = (Inr (), tbl)"
| "executemany_insert tbl (r # rs) =
     (if has_lone_surrogate (snd (snd r)) then (Inl UnicodeEncodeError, tbl)
      else if fst r \<in> fst ` set tbl then (Inl IntegrityError, tbl)
      else executemany_insert (tbl @ [r]) rs)"

text \<open>\<^verbatim>\<open>_next_free_vector_id\<close>: \<^verbatim>\<open>COALESCE(MAX(vector_id), -1) + 1\<close>.\<close>

definition next_free_vector_id :: "chunk_row list \<Rightarrow> int" where
  "next_free_vector_id tbl = (case tbl of [] \<Rightarrow> - 1 | r # rs \<Rightarrow> fold max (map fst rs) (fst r)) + 1"

subsection \<open>Core API\<close>

text \<open>\<^verbatim>\<open>np.arange(a, b, dtype="int64")\<close> for \<open>a \<le> b\<close>.\<close>

definition arange :: "int \<Rightarrow> int \<Rightarrow> int list" where
  "arange a b = map (\<lambda>k. a + int k) [0..<nat (b - a)]"

definition insert_resume ::
  "store \<Rightarrow> meta \<Rightarrow> string list \<Rightarrow> vec list \<Rightarrow> (error + unit) \<times> store" where
  "insert_resume s m chunk_texts embeddings =
     (if length chunk_texts \<noteq> length embeddings then (Inl ValueError, s)
      else
        (let s1 = s\<lparr>resumes := upsert_resume (resumes s) m\<rparr>;
             vec_ids = arange (next_id s1) (next_id s1 + int (length chunk_texts))
         in (case l2_normalize (PyList embeddings) of
               Inl e \<Rightarrow> (Inl e, s1)
             | Inr x \<Rightarrow>
                 (case add_with_ids (index s1) x vec_ids of
                    Inl e \<Rightarrow> (Inl e, s1)
                  | Inr idx' \<Rightarrow>
                      (let s2 = s1\<lparr>index := idx'\<rparr>;
                           rows = map (\<lambda>(v_id, txt). (v_id, resume_id m, txt))
                                    (zip vec_ids chunk_texts)
                       in (case executemany_insert (chunks s2) rows of
                             (Inl e, tbl) \<Rightarrow> (Inl e, s2\<lparr>chunks := tbl\<rparr>)
                           | (Inr u, tbl) \<Rightarrow>
                               (Inr (),
                                s2\<lparr>chunks := tbl,
                                   next_id := next_id s2 + int (length chunk_texts)\<rparr>)))))))"

definition delete_resume :: "store \<Rightarrow> string \<Rightarrow> store" where
  "delete_resume s rid =
     (let vec_ids = map fst (filter (\<lambda>r. fst (snd r) = rid) (chunks s));
          s1 = (if vec_ids \<noteq> [] then s\<lparr>index := remove_ids (index s) vec_ids\<rparr> else s)
      in s1\<lparr>chunks := filter (\<lambda>r. fst (snd r) \<noteq> rid) (chunks s1),
             resumes := (resumes s1)(rid := None)\<rparr>)"

text \<open>The dictionary \<^verbatim>\<open>fetch_meta\<close> returns, as its items in order.\<close>

datatype pyval = PStr string | PInt int | PStrList "string list"

definition fetch_meta :: "store \<Rightarrow> string \<Rightarrow> (string \<times> pyval) list option" where
  "fetch_meta s rid =
     (case resumes s rid of
        None \<Rightarrow> None
      | Some row \<Rightarrow>
          Some [(''name'', PStr (row_name row)),
                (''skills'', PStrList (row_skills row)),
                (''years_experience'', PInt (row_years_experience row))])"

definition index_size :: "store \<Rightarrow> int" where
  "index_size s = ntotal (index s)"

definition get_chunks_for_resume :: "store \<Rightarrow> string \<Rightarrow> (int \<times> string) list" where
  "get_chunks_for_resume s rid =
     map (\<lambda>r. (fst r, snd (snd r)))
       (sort_key fst (filter (\<lambda>r. fst (snd r) = rid) (chunks s)))"

text \<open>
  The argument of \<^verbatim>\<open>search_vectors\<close>: an array, a list of numbers, a list whose
  first element is a list, or anything else. The empty list \<^verbatim>\<open>[]\<close> is
  \<open>QList []\<close> (and \<open>QNested []\<close>).
\<close>

datatype query = QArray ndarray | QList vec | QNested "vec list" | QOther

fun query_rows :: "query \<Rightarrow> error + vec list" where
  "query_rows (QArray (Arr2 arr)) = l2_normalize (NdArray (Arr2 arr))"
| "query_rows (QArray (Arr1 v)) = l2_normalize (PyList [v])"
| "query_rows (QList []) = Inl ValueError"
| "query_rows (QList (x # xs)) = l2_normalize (PyList [x # xs])"
| "query_rows (QNested []) = Inl ValueError"
| "query_rows (QNested (r # rs)) = l2_normalize (PyList (r # rs))"
| "query_rows QOther = Inl ValueError"

text \<open>
  \<^verbatim>\<open>search_vectors\<close>: the \<^verbatim>\<open>try\<close> block turns every exception of the FAISS call
  and of the comprehension (the \<^verbatim>\<open>IndexError\<close> of \<^verbatim>\<open>ids[0]\<close> when there is no
  row) into the empty list; the comprehension reads row 0 only.
\<close>

definition search_vectors :: "store \<Rightarrow> query \<Rightarrow> int \<Rightarrow> error + (real \<times> int) list" where
  "search_vectors s query_vec top_k =
     (case query_rows query_vec of
        Inl e \<Rightarrow> Inl e
      | Inr q \<Rightarrow>
          if ntotal (index s) = 0 then Inr []
          else
            (case faiss_search (index s) q (min top_k (ntotal (index s))) of
               Inl e \<Rightarrow> Inr []
             | Inr (distances, ids) \<Rightarrow>
                 (case (distances, ids) of
                    (d0 # ds, i0 # is) \<Rightarrow> Inr (filter (\<lambda>p. snd p \<noteq> - 1) (zip d0 i0))
                  | _ \<Rightarrow> Inr [])))"

subsection \<open>Module initialisation, histories and well-formed queries\<close>

text \<open>
  Importing the module loads or creates the index, opens the tables and sets
  \<^verbatim>\<open>_next_id = _next_free_vector_id(conn)\<close>. A process that starts without files
  has empty tables and an empty index of the configured dimension.
\<close>

definition init_store :: "(string \<rightharpoonup> resume_row) \<Rightarrow> chunk_row list \<Rightarrow> faiss_index \<Rightarrow> store" where
  "init_store res tbl idx =
     \<lparr>resumes = res, chunks = tbl, index = idx, next_id = next_free_vector_id tbl\<rparr>"

definition fresh_store :: "nat \<Rightarrow> store" where
  "fresh_store d = init_store Map.empty [] \<lparr>idx_d = d, idx_entries = []\<rparr>"

text \<open>
  The cursor is above every \<^verbatim>\<open>vector_id\<close> of the \<^verbatim>\<open>chunks\<close> table. It holds after
  initialisation and every operation keeps it (proved below).
\<close>

definition cursor_inv :: "store \<Rightarrow> bool" where
  "cursor_inv s = list_all (\<lambda>r. fst r < next_id s) (chunks s)"

text \<open>
  A history of the mutating calls of one process. \<open>run\<close> executes it and records,
  for every call of \<^verbatim>\<open>insert_resume\<close>, the identifiers the call issued: those under
  which it added vectors to the index (none when the call raised before
  \<^verbatim>\<open>add_with_ids\<close>).
\<close>

datatype op = Insert meta "string list" "vec list" | Delete string

fun run :: "store \<Rightarrow> op list \<Rightarrow> int list list \<times> store" where
  "run s [] = ([], s)"
| "run s (Insert m chunk_texts embeddings # ops) =
     (case insert_resume s m chunk_texts embeddings of
        (r, s1) \<Rightarrow>
          (case run s1 ops of
             (issued, s2) \<Rightarrow>
               (map fst (drop (length (idx_entries (index s))) (idx_entries (index s1))) # issued,
                s2)))"
| "run s (Delete rid # ops) = run (delete_resume s rid) ops"

text \<open>A history in which every chunk text can be stored.\<close>

fun storable_history :: "op list \<Rightarrow> bool" where
  "storable_history [] = True"
| "storable_history (Insert m chunk_texts embeddings # ops) =
     (list_all (\<lambda>t. \<not> has_lone_surrogate t) chunk_texts \<and> storable_history ops)"
| "storable_history (Delete rid # ops) = storable_history ops"

text \<open>
  A well-formed query: a non-empty list of numbers, a non-empty list of rows of one
  length, or an array of one or two dimensions.
\<close>

fun well_formed_query :: "query \<Rightarrow> bool" where
  "well_formed_query (QArray a) = True"
| "well_formed_query (QList v) = (v \<noteq> [])"
| "well_formed_query (QNested []) = False"
| "well_formed_query (QNested (r # rs)) = list_all (\<lambda>r'. length r' = length r) rs"
| "well_formed_query QOther = False"

subsection \<open>Concrete data for the examples\<close>

definition doc :: "string \<Rightarrow> meta" where
  "doc rid = \<lparr>resume_id = rid, name = ''Ada'', email = ''ada@example.com'',
              skills = [''python''], years_experience = 3\<rparr>"

definition two_vector_store :: store where
  "two_vector_store =
     \<lparr>resumes = Map.empty(''D1'' \<mapsto> \<lparr>row_name = ''Ada'', row_email = ''ada@example.com'',
                  row_skills = [''python''], row_years_experience = 3, version = 1\<rparr>),
      chunks = [(0, ''D1'', ''a''), (1, ''D1'', ''b'')],
      index = \<lparr>idx_d = 2, idx_entries = [(0, [1, 0]), (1, [0, 1])]\<rparr>,
      next_id = 2\<rparr>"

text \<open>
  A document inserted twice, a document whose only vector is all zero, and a document
  with an all-zero vector between two others, each on a fresh store of dimension 2.
\<close>

definition after_first :: store where
  "after_first = snd (insert_resume (fresh_store 2) (doc ''D1'') [''a''] [[1, 0]])"

definition after_reinsert :: store where
  "after_reinsert = snd (insert_resume after_first (doc ''D1'') [''b''] [[0, 1]])"



text \<open>
  The text \<^verbatim>\<open>'\udc80'\<close>, one lone surrogate, and a history of two inserts of one
  chunk each, the first with that text.
\<close>

definition surrogate_text :: string where
  "surrogate_text = [CHR 0xED, CHR 0xB2, CHR 0x80]"

definition after_failed_insert :: store where
  "after_failed_insert =
     snd (insert_resume (fresh_store 2) (doc ''D1'') [surrogate_text] [[1, 0]])"

definition after_partial_insert :: store where
  "after_partial_insert =
     snd (insert_resume (fresh_store 2) (doc ''D1'') [''a'', surrogate_text] [[1, 0], [0, 1]])"

definition failing_history :: "op list" where
  "failing_history = [Insert (doc ''D1'') [surrogate_text] [[1, 0]],
                      Insert (doc ''D2'') [''ok''] [[0, 1]]]"

text \<open>
  The scenario of the allocator: a document of two chunks, a document of three chunks,
  the first document deleted, then a third insert.
\<close>

definition scenario :: "op list" where
  "scenario = [Insert (doc ''D1'') [''a'', ''b''] [[1, 0], [0, 1]],
               Insert (doc ''D2'') [''c'', ''d'', ''e''] [[1, 1], [3, 4], [0, 2]],
               Delete ''D1'',
               Insert (doc ''D3'') [''f''] [[3, 4]]]"

section \<open>Facts about normalisation\<close>

lemma length_normalize_row [simp]: "length (normalize_row v) = length v"
  by (simp add: normalize_row_def)




lemma l2_normalize_PyList:
  "l2_normalize (PyList rows) = Inr x \<Longrightarrow> rows \<noteq> [] \<and> x = map normalize_row rows"
  by (cases rows) (auto simp: l2_normalize_def split: if_splits)

section \<open>Facts about \<^verbatim>\<open>insert_resume\<close> and \<^verbatim>\<open>delete_resume\<close>\<close>

lemma executemany_insert_ok:
  "executemany_insert tbl rows = (Inr u, tbl') \<Longrightarrow> tbl' = tbl @ rows"
  by (induction tbl rows rule: executemany_insert.induct) (auto split: if_splits)

text \<open>What a call of \<^verbatim>\<open>insert_resume\<close> that returns has done.\<close>

lemma insert_resume_ok:
  assumes "insert_resume s m chunk_texts embeddings = (Inr (), s')"
  shows "length chunk_texts = length embeddings \<and> embeddings \<noteq> [] \<and>
         list_all (\<lambda>r. length r = idx_d (index s)) embeddings \<and>
         s' = s\<lparr>resumes := upsert_resume (resumes s) m,
               index := (index s)\<lparr>idx_entries := idx_entries (index s) @
                          zip (arange (next_id s) (next_id s + int (length chunk_texts)))
                              (map normalize_row embeddings)\<rparr>,
               chunks := chunks s @ map (\<lambda>(v_id, txt). (v_id, resume_id m, txt))
                          (zip (arange (next_id s) (next_id s + int (length chunk_texts))) chunk_texts),
               next_id := next_id s + int (length chunk_texts)\<rparr>"
  using assms
  by (auto simp: insert_resume_def Let_def add_with_ids_def list_all_iff
      dest!: l2_normalize_PyList executemany_insert_ok
      split: if_splits sum.splits prod.splits)

text \<open>Facts about \<^verbatim>\<open>np.arange\<close> and the rows written by \<^verbatim>\<open>executemany\<close>.\<close>

lemma length_arange [simp]: "length (arange a b) = nat (b - a)"
  by (simp add: arange_def)

lemma set_arange: "set (arange a b) = {a..<b}"
proof -
  have "\<And>x. a \<le> x \<Longrightarrow> x < b \<Longrightarrow> x \<in> (\<lambda>k. a + int k) ` {0..<nat (b - a)}"
  proof -
    fix x assume "a \<le> x" "x < b"
    then have "x = a + int (nat (x - a))" "nat (x - a) \<in> {0..<nat (b - a)}" by auto
    then show "x \<in> (\<lambda>k. a + int k) ` {0..<nat (b - a)}" by (rule image_eqI)
  qed
  then show ?thesis by (auto simp: arange_def)
qed

lemma sorted_arange: "sorted_wrt (<) (arange a b)"
  by (simp add: arange_def sorted_wrt_map sorted_wrt_iff_nth_less)

lemma arange_append: "a \<le> b \<Longrightarrow> b \<le> c \<Longrightarrow> arange a b @ arange b c = arange a c"
proof -
  assume ab: "a \<le> b" and bc: "b \<le> c"
  have "length (arange a b @ arange b c) = length (arange a c)" using ab bc by simp
  moreover have "\<And>i. i < length (arange a b @ arange b c) \<Longrightarrow> (arange a b @ arange b c) ! i = arange a c ! i"
    using ab bc by (auto simp: nth_append arange_def)
  ultimately show ?thesis by (rule nth_equalityI)
qed

lemma arange_empty [simp]: "arange a a = []"
  by (simp add: arange_def)

lemma executemany_insert_fresh:
  "list_all (\<lambda>r. \<not> has_lone_surrogate (snd (snd r))) rows \<Longrightarrow>
   distinct (map fst rows) \<Longrightarrow> fst ` set rows \<inter> fst ` set tbl = {} \<Longrightarrow>
   executemany_insert tbl rows = (Inr (), tbl @ rows)"
proof (induction tbl rows rule: executemany_insert.induct)
  case (1 tbl)
  show ?case by simp
next
  case (2 tbl r rs)
  from "2.prems" have enc: "\<not> has_lone_surrogate (snd (snd r))" by simp
  from "2.prems" have fresh: "fst r \<notin> fst ` set tbl" by auto
  from "2.prems" have "list_all (\<lambda>r. \<not> has_lone_surrogate (snd (snd r))) rs"
    "distinct (map fst rs)" "fst ` set rs \<inter> fst ` set (tbl @ [r]) = {}"
    by auto
  with "2.IH" enc fresh have "executemany_insert (tbl @ [r]) rs = (Inr (), (tbl @ [r]) @ rs)"
    by blast
  with enc fresh show ?case by simp
qed

lemma map_fst_rows:
  "length ids = length txts \<Longrightarrow> map fst (map (\<lambda>(v_id, txt). (v_id, rid, txt)) (zip ids txts)) = ids"
  by (induction ids txts rule: list_induct2) auto

lemma texts_of_rows:
  "snd ` snd ` set (map (\<lambda>(v_id, txt). (v_id, rid, txt)) (zip ids txts)) \<subseteq> set txts"
  by (auto dest: set_zip_rightD)

lemma distinct_arange: "distinct (arange a b)"
  by (simp add: arange_def distinct_map inj_on_def)

lemma executemany_insert_rows:
  assumes inv: "cursor_inv s" and len: "length chunk_texts = n"
    and enc: "list_all (\<lambda>t. \<not> has_lone_surrogate t) chunk_texts"
  shows "executemany_insert (chunks s)
           (map (\<lambda>(v_id, txt). (v_id, rid, txt)) (zip (arange (next_id s) (next_id s + int n)) chunk_texts))
         = (Inr (), chunks s @
           map (\<lambda>(v_id, txt). (v_id, rid, txt)) (zip (arange (next_id s) (next_id s + int n)) chunk_texts))"
proof (rule executemany_insert_fresh)
  let ?ids = "arange (next_id s) (next_id s + int n)"
  let ?rows = "map (\<lambda>(v_id, txt). (v_id, rid, txt)) (zip ?ids chunk_texts)"
  have ids: "map fst ?rows = ?ids" using len by (intro map_fst_rows) simp
  show "list_all (\<lambda>r. \<not> has_lone_surrogate (snd (snd r))) ?rows"
    using enc texts_of_rows [of rid ?ids chunk_texts] unfolding list_all_iff by blast
  show "distinct (map fst ?rows)" unfolding ids by (rule distinct_arange)
  have "fst ` set ?rows = set ?ids" using ids by (metis list.set_map)
  moreover have "\<forall>i \<in> fst ` set (chunks s). i < next_id s"
    using inv by (auto simp: cursor_inv_def list_all_iff)
  ultimately show "fst ` set ?rows \<inter> fst ` set (chunks s) = {}"
    by (auto simp: set_arange)
qed

lemma l2_normalize_PyList_error:
  "l2_normalize (PyList rows) = Inl e \<Longrightarrow> e = AxisError \<or> e = ValueError"
  by (cases rows) (auto simp: l2_normalize_def split: if_splits)

text \<open>
  When every chunk text can be stored and the cursor is above the stored identifiers,
  a call that raises has raised before \<^verbatim>\<open>add_with_ids\<close>.
\<close>

lemma insert_resume_failed:
  assumes inv: "cursor_inv s"
    and enc: "list_all (\<lambda>t. \<not> has_lone_surrogate t) chunk_texts"
    and ins: "insert_resume s m chunk_texts embeddings = (Inl e, s1)"
  shows "chunks s1 = chunks s \<and> index s1 = index s \<and> next_id s1 = next_id s \<and>
         e \<noteq> IntegrityError \<and> e \<noteq> UnicodeEncodeError"
proof (cases "length chunk_texts = length embeddings")
  case False
  with ins show ?thesis by (auto simp: insert_resume_def)
next
  case True
  show ?thesis
    using ins True
      executemany_insert_rows [OF inv refl enc, where rid = "resume_id m"]
    by (auto simp: insert_resume_def Let_def add_with_ids_def
        dest: l2_normalize_PyList_error split: if_splits sum.splits)
qed

lemma insert_resume_step:
  assumes inv: "cursor_inv s"
    and enc: "list_all (\<lambda>t. \<not> has_lone_surrogate t) chunk_texts"
    and ins: "insert_resume s m chunk_texts embeddings = (r, s1)"
  shows "cursor_inv s1 \<and> next_id s \<le> next_id s1 \<and>
         map fst (drop (length (idx_entries (index s))) (idx_entries (index s1))) =
           arange (next_id s) (next_id s1)"
proof (cases r)
  case (Inr u)
  let ?ids = "arange (next_id s) (next_id s + int (length chunk_texts))"
  from Inr ins have "insert_resume s m chunk_texts embeddings = (Inr (), s1)" by simp
  from insert_resume_ok [OF this]
  have len: "length chunk_texts = length embeddings"
    and s1: "chunks s1 = chunks s @ map (\<lambda>(v_id, txt). (v_id, resume_id m, txt)) (zip ?ids chunk_texts)"
    "next_id s1 = next_id s + int (length chunk_texts)"
    and idx: "idx_entries (index s1) = idx_entries (index s) @ zip ?ids (map normalize_row embeddings)"
    by simp_all
  have ids: "map fst (map (\<lambda>(v_id, txt). (v_id, resume_id m, txt)) (zip ?ids chunk_texts)) = ?ids"
    by (rule map_fst_rows) simp
  have "list_all (\<lambda>r. fst r < next_id s1) (map (\<lambda>(v_id, txt). (v_id, resume_id m, txt)) (zip ?ids chunk_texts))"
  proof -
    have "\<forall>i \<in> set ?ids. i < next_id s1" by (simp add: set_arange s1)
    with ids show ?thesis unfolding list_all_iff
      by (metis (no_types, lifting) image_eqI list.set_map)
  qed
  moreover have "list_all (\<lambda>r. fst r < next_id s1) (chunks s)"
    using inv by (auto simp: cursor_inv_def list_all_iff s1)
  ultimately have "cursor_inv s1" by (simp add: cursor_inv_def s1)
  moreover have "map fst (zip ?ids (map normalize_row embeddings)) = ?ids"
    using len by (simp add: map_fst_zip)
  ultimately show ?thesis by (simp add: s1 idx)
next
  case (Inl e)
  with ins have "insert_resume s m chunk_texts embeddings = (Inl e, s1)" by simp
  from insert_resume_failed [OF inv enc this]
  have "chunks s1 = chunks s \<and> next_id s1 = next_id s \<and> index s1 = index s" by simp
  then show ?thesis using inv by (simp add: cursor_inv_def)
qed

lemma delete_resume_step:
  "cursor_inv s \<Longrightarrow> cursor_inv (delete_resume s rid) \<and> next_id (delete_resume s rid) = next_id s"
  by (auto simp: cursor_inv_def delete_resume_def Let_def list_all_iff)

lemma cursor_inv_init: "cursor_inv (init_store res tbl idx)"
proof (cases tbl)
  case Nil
  then show ?thesis by (simp add: cursor_inv_def init_store_def)
next
  case (Cons r rs)
  have fold_max: "\<And>(x::int) xs. x \<le> fold max xs x \<and> (\<forall>y \<in> set xs. y \<le> fold max xs x)"
  proof -
    fix x :: int and xs
    show "x \<le> fold max xs x \<and> (\<forall>y \<in> set xs. y \<le> fold max xs x)"
    proof (induction xs arbitrary: x)
      case Nil
      show ?case by simp
    next
      case (Cons a xs)
      from Cons [of "max a x"] show ?case by auto
    qed
  qed
  from fold_max [of "fst r" "map fst rs"] Cons show ?thesis
    by (auto simp: cursor_inv_def init_store_def next_free_vector_id_def list_all_iff)
qed

lemma arange_rec: "arange a b = (if a < b then a # arange (a + 1) b else [])"
proof (cases "a < b")
  case True
  then have "nat (b - a) = Suc (nat (b - (a + 1)))" by simp
  then have "[0..<nat (b - a)] = 0 # map Suc [0..<nat (b - (a + 1))]"
    by (simp only: upt_conv_Cons [of 0 "Suc _"] map_Suc_upt)
  then show ?thesis using True by (simp add: arange_def comp_def)
next
  case False
  then show ?thesis by (simp add: arange_def)
qed

lemmas eval_defs =
  fresh_store_def init_store_def next_free_vector_id_def insert_resume_def l2_normalize_def
  add_with_ids_def arange_rec upsert_resume_def doc_def delete_resume_def remove_ids_def
  get_chunks_for_resume_def fetch_meta_def surrogate_text_def Let_def

section \<open>The allocator cursor\<close>

text \<open>
  In a history whose chunk texts can all be stored, started with the cursor above the
  stored identifiers (as module initialisation leaves it), the identifiers issued by
  the inserts, read in order, are exactly the range from the cursor at the start to the
  cursor at the end, and a delete leaves the cursor where it is.
\<close>

lemma issued_ids_of_storable_history:
  assumes "cursor_inv s" and "storable_history ops" and "run s ops = (issued, s')"
  shows "concat issued = arange (next_id s) (next_id s') \<and> next_id s \<le> next_id s' \<and>
         sorted_wrt (<) (concat issued) \<and> distinct (concat issued) \<and> cursor_inv s'"
proof -
  have main: "concat issued = arange (next_id s) (next_id s') \<and> next_id s \<le> next_id s' \<and> cursor_inv s'"
    using assms
  proof (induction ops arbitrary: s issued s')
    case Nil
    then show ?case by simp
  next
    case (Cons o1 ops)
    show ?case
    proof (cases o1)
      case (Insert m chunk_texts embeddings)
      from Cons.prems(2) Insert
      have enc: "list_all (\<lambda>t. \<not> has_lone_surrogate t) chunk_texts" and hist: "storable_history ops"
        by simp_all
      obtain r s1 where ins: "insert_resume s m chunk_texts embeddings = (r, s1)"
        by (cases "insert_resume s m chunk_texts embeddings")
      obtain rest s2 where rest: "run s1 ops = (rest, s2)" by (cases "run s1 ops")
      from insert_resume_step [OF Cons.prems(1) enc ins]
      have step: "cursor_inv s1" "next_id s \<le> next_id s1"
        "map fst (drop (length (idx_entries (index s))) (idx_entries (index s1))) =
           arange (next_id s) (next_id s1)"
        by simp_all
      from Cons.IH [OF step(1) hist rest]
      have ih: "concat rest = arange (next_id s1) (next_id s2)" "next_id s1 \<le> next_id s2" "cursor_inv s2"
        by simp_all
      from Cons.prems(3) Insert ins rest
      have "issued = arange (next_id s) (next_id s1) # rest" "s' = s2"
        by (simp_all add: step(3))
      then show ?thesis using ih step arange_append [OF step(2) ih(2)] by simp
    next
      case (Delete rid)
      from delete_resume_step [OF Cons.prems(1), of rid]
      have step: "cursor_inv (delete_resume s rid)" "next_id (delete_resume s rid) = next_id s"
        by simp_all
      from Cons.prems(2) Delete have hist: "storable_history ops" by simp
      from Cons.prems(3) Delete have "run (delete_resume s rid) ops = (issued, s')" by simp
      from Cons.IH [OF step(1) hist this] show ?thesis by (simp add: step(2))
    qed
  qed
  then show ?thesis
    using sorted_arange [of "next_id s" "next_id s'"] distinct_arange [of "next_id s" "next_id s'"]
    by simp
qed

text \<open>
  The scenario on a fresh store: two chunks, three chunks, the first document deleted,
  and the third insert starts at 5.
\<close>

lemma scenario_issued_ids:
  "fst (run (fresh_store 2) scenario) = [[0, 1], [2, 3, 4], [5]] \<and>
   next_id (snd (run (fresh_store 2) scenario)) = 6"
  by (simp add: scenario_def eval_defs)

text \<open>
  When the text that cannot be stored is in the second row, the first row stays in
  the connection, the cursor stays at 0, and the next insert raises
  \<^verbatim>\<open>IntegrityError\<close> after it has added its vector under identifier 0 as well.
\<close>

lemma failed_insert_keeps_earlier_rows:
  "fst (insert_resume (fresh_store 2) (doc ''D1'') [''a'', surrogate_text] [[1, 0], [0, 1]]) =
     Inl UnicodeEncodeError \<and>
   chunks after_partial_insert = [(0, ''D1'', ''a'')] \<and>
   map fst (idx_entries (index after_partial_insert)) = [0, 1] \<and>
   next_id after_partial_insert = 0 \<and>
   fst (insert_resume after_partial_insert (doc ''D2'') [''ok''] [[0, 1]]) = Inl IntegrityError \<and>
   map fst (idx_entries (index (snd (insert_resume after_partial_insert (doc ''D2'') [''ok'']
     [[0, 1]])))) = [0, 1, 0]"
  by (simp add: after_partial_insert_def eval_defs)

text \<open>
  C2 at a failing input. On a fresh store, \<open>D1\<close> is inserted with one chunk whose text
  holds a lone surrogate: \<^verbatim>\<open>add_with_ids\<close> puts its vector into the index under
  identifier 0, then \<^verbatim>\<open>executemany\<close> raises \<^verbatim>\<open>UnicodeEncodeError\<close>, and the line
  that advances \<^verbatim>\<open>_next_id\<close> is not reached. The next insert, of \<open>D2\<close> with one
  chunk, returns and issues identifier 0 again: the index holds two vectors under 0.
  So an identifier is issued twice, and the second insert's identifier is not greater
  than the one issued before.
\<close>

theorem failed_insert_reuses_vector_id:
  "fst (insert_resume (fresh_store 2) (doc ''D1'') [surrogate_text] [[1, 0]]) =
     Inl UnicodeEncodeError \<and>
   map fst (idx_entries (index after_failed_insert)) = [0] \<and>
   chunks after_failed_insert = [] \<and>
   next_id after_failed_insert = 0 \<and>
   fst (insert_resume after_failed_insert (doc ''D2'') [''ok''] [[0, 1]]) = Inr () \<and>
   fst (run (fresh_store 2) failing_history) = [[0], [0]] \<and>
   map fst (idx_entries (index (snd (run (fresh_store 2) failing_history)))) = [0, 0] \<and>
   \<not> distinct (concat (fst (run (fresh_store 2) failing_history)))"
  by (simp add: after_failed_insert_def failing_history_def eval_defs)

section \<open>Rejected inserts\<close>

text \<open>
  C8. An insert whose lists of chunk texts and chunk vectors differ in length raises
  \<^verbatim>\<open>ValueError\<close> and leaves the whole store (both tables, the index and the
  cursor) exactly as it was.
\<close>

theorem insert_resume_arity_mismatch:
  "length chunk_texts \<noteq> length embeddings \<Longrightarrow>
   insert_resume s m chunk_texts embeddings = (Inl ValueError, s)"
  by (simp add: insert_resume_def)

theorem insert_resume_arity_mismatch_witness:
  "length [''a'', ''b''] \<noteq> length [[1, 0 :: real]] \<and>
   insert_resume two_vector_store (doc ''D2'') [''a'', ''b''] [[1, 0]] =
     (Inl ValueError, two_vector_store)"
  using insert_resume_arity_mismatch [of "[''a'', ''b'']" "[[1, 0]]" two_vector_store "doc ''D2''"]
  by simp

section \<open>Stored vectors\<close>




section \<open>Inserting a document again\<close>

text \<open>
  C1 at a concrete input: on a fresh store, document \<open>D1\<close> is inserted with the chunk
  \<open>a\<close> and inserted again with the chunk \<open>b\<close>. Both calls return, and afterwards
  \<^verbatim>\<open>get_chunks_for_resume\<close> yields both chunks and the index holds both vectors:
  \<^verbatim>\<open>insert_resume\<close> has no statement that deletes rows of \<^verbatim>\<open>chunks\<close> or calls
  \<^verbatim>\<open>remove_ids\<close>.
\<close>

theorem reinsert_keeps_old_chunks:
  "fst (insert_resume (fresh_store 2) (doc ''D1'') [''a''] [[1, 0]]) = Inr () \<and>
   fst (insert_resume after_first (doc ''D1'') [''b''] [[0, 1]]) = Inr () \<and>
   get_chunks_for_resume after_reinsert ''D1'' = [(0, ''a''), (1, ''b'')] \<and>
   map fst (idx_entries (index after_reinsert)) = [0, 1] \<and>
   index_size after_reinsert = 2"
  by (simp add: after_reinsert_def after_first_def eval_defs index_size_def ntotal_def)

section \<open>The version of a document\<close>

text \<open>
  C5, as the claim states it, fails: the dictionary that \<^verbatim>\<open>fetch_meta\<close> returns has
  the keys \<^verbatim>\<open>name\<close>, \<^verbatim>\<open>skills\<close> and \<^verbatim>\<open>years_experience\<close> and no key
  \<^verbatim>\<open>version\<close>, also after a second insert.
\<close>

theorem fetch_meta_has_no_version:
  "fetch_meta after_reinsert ''D1'' =
     Some [(''name'', PStr ''Ada''), (''skills'', PStrList [''python'']),
           (''years_experience'', PInt 3)] \<and>
   map_of (the (fetch_meta after_reinsert ''D1'')) ''version'' = None"
  by (simp add: after_reinsert_def after_first_def eval_defs)

text \<open>
  C5, amended. When a document that is not in the table is inserted and then inserted
  again under the same \<^verbatim>\<open>resume_id\<close>, both calls returning, its row of \<^verbatim>\<open>resumes\<close>
  has version 2, and \<^verbatim>\<open>fetch_meta\<close> returns the name, skills and years of experience of
  the second insert, without the version.
\<close>

theorem reinsert_version_two:
  assumes "resumes s (resume_id m1) = None"
    and "insert_resume s m1 texts1 embeddings1 = (Inr (), s1)"
    and "resume_id m2 = resume_id m1"
    and "insert_resume s1 m2 texts2 embeddings2 = (Inr (), s2)"
  shows "map_option version (resumes s2 (resume_id m1)) = Some 2 \<and>
         fetch_meta s2 (resume_id m1) =
           Some [(''name'', PStr (name m2)), (''skills'', PStrList (skills m2)),
                 (''years_experience'', PInt (years_experience m2))]"
proof -
  from insert_resume_ok [OF assms(2)] have r1: "resumes s1 = upsert_resume (resumes s) m1" by simp
  from insert_resume_ok [OF assms(4)] have r2: "resumes s2 = upsert_resume (resumes s1) m2" by simp
  show ?thesis using assms(1,3) by (simp add: r1 r2 upsert_resume_def fetch_meta_def)
qed

theorem reinsert_version_two_witness:
  "resumes (fresh_store 2) (resume_id (doc ''D1'')) = None \<and>
   insert_resume (fresh_store 2) (doc ''D1'') [''a''] [[1, 0]] = (Inr (), after_first) \<and>
   resume_id (doc ''D1'') = resume_id (doc ''D1'') \<and>
   insert_resume after_first (doc ''D1'') [''b''] [[0, 1]] = (Inr (), after_reinsert) \<and>
   map_option version (resumes after_reinsert ''D1'') = Some 2"
proof -
  have a: "resumes (fresh_store 2) (resume_id (doc ''D1'')) = None"
    by (simp add: eval_defs)
  have b: "insert_resume (fresh_store 2) (doc ''D1'') [''a''] [[1, 0]] = (Inr (), after_first)"
    by (simp add: after_first_def eval_defs)
  have c: "insert_resume after_first (doc ''D1'') [''b''] [[0, 1]] = (Inr (), after_reinsert)"
    by (simp add: after_reinsert_def after_first_def eval_defs)
  from reinsert_version_two [OF a b refl c] a b c show ?thesis by (simp add: doc_def)
qed

section \<open>Inserting without chunks\<close>

text \<open>
  C10 at the failing input: with no chunks the length check passes, the metadata row is
  upserted, and \<^verbatim>\<open>_l2_normalize([])\<close> raises: \<^verbatim>\<open>np.asarray([])\<close> has one dimension, so
  the norm along axis 1 is an \<^verbatim>\<open>AxisError\<close>. The call does not return; the upserted
  row stays in the connection, everything else is as before.
\<close>

theorem insert_without_chunks_raises:
  "insert_resume s m [] [] = (Inl AxisError, s\<lparr>resumes := upsert_resume (resumes s) m\<rparr>)"
  by (simp add: insert_resume_def l2_normalize_def)

section \<open>Searching\<close>

lemma query_rows_well_formed:
  "well_formed_query q \<Longrightarrow> \<exists>rows. query_rows q = Inr rows"
  by (cases q rule: query_rows.cases) (auto simp: l2_normalize_def)

lemma query_rows_malformed:
  "\<not> well_formed_query q \<Longrightarrow> query_rows q = Inl ValueError"
  by (cases q rule: query_rows.cases) (auto simp: l2_normalize_def)

lemma l2_norm_1_0: "l2_norm [1, 0] = 1" "l2_norm [0, 1] = 1"
  by (simp_all add: l2_norm_def)

lemmas search_eval = search_vectors_def two_vector_store_def l2_normalize_def ntotal_def faiss_search_def
  flat_ip_search_def ranked_def inner_product_def normalize_row_def l2_norm_1_0 Let_def

lemma length_ranked [simp]: "length (ranked es q) = length es"
  by (simp add: ranked_def)

lemma flat_ip_search_no_pad:
  "k \<le> length es \<Longrightarrow> flat_ip_search es k q = take k (ranked es q)"
  by (simp add: flat_ip_search_def Let_def)

lemma sorted_ranked: "sorted_wrt (\<lambda>a b. fst b \<le> fst a) (ranked es q)"
proof -
  have "sorted (map (\<lambda>p. - fst p) (ranked es q))"
    unfolding ranked_def by (rule sorted_sort_key)
  then show ?thesis by (simp add: sorted_map)
qed

lemma set_ranked: "set (ranked es q) = (\<lambda>e. (inner_product q (snd e), fst e)) ` set es"
  by (simp add: ranked_def)

lemma search_vectors_batch:
  assumes ne: "idx_entries (index s) \<noteq> []" and k: "0 < top_k"
    and wf: "list_all (\<lambda>r'. length r' = length r) rs"
  shows "search_vectors s (QNested (r # rs)) top_k =
         Inr (if length r = idx_d (index s)
              then filter (\<lambda>p. snd p \<noteq> - 1)
                     (take (nat (min top_k (ntotal (index s))))
                        (ranked (idx_entries (index s)) (normalize_row r)))
              else [])"
proof -
  let ?n = "ntotal (index s)"
  let ?k = "min top_k ?n"
  have n: "0 < ?n" using ne by (simp add: ntotal_def)
  have rows: "query_rows (QNested (r # rs)) = Inr (normalize_row r # map normalize_row rs)"
    using wf by (simp add: l2_normalize_def)
  show ?thesis
  proof (cases "length r = idx_d (index s)")
    case False
    then have "faiss_search (index s) (normalize_row r # map normalize_row rs) ?k = Inl AssertionError"
      by (simp add: faiss_search_def)
    with n rows False show ?thesis by (simp add: search_vectors_def)
  next
    case True
    have le: "nat ?k \<le> length (idx_entries (index s))"
      by (simp add: ntotal_def)
    have dims: "list_all (\<lambda>r'. length r' = idx_d (index s)) (normalize_row r # map normalize_row rs)"
      using wf True by (simp add: list_all_iff)
    have "faiss_search (index s) (normalize_row r # map normalize_row rs) ?k =
          Inr (map (map fst) (map (flat_ip_search (idx_entries (index s)) (nat ?k))
                 (normalize_row r # map normalize_row rs)),
               map (map snd) (map (flat_ip_search (idx_entries (index s)) (nat ?k))
                 (normalize_row r # map normalize_row rs)))"
      using dims k n unfolding faiss_search_def Let_def by simp
    with n rows True show ?thesis
      by (simp add: search_vectors_def zip_map_fst_snd flat_ip_search_no_pad [OF le])
  qed
qed

text \<open>
  C7. A well-formed query (a non-empty list of numbers, a non-empty list of rows of one
  length, or an array) against an empty index returns the empty list for every
  \<open>top_k\<close>, without an error: the test of \<^verbatim>\<open>index.ntotal\<close> comes before the call of
  the engine.
\<close>

theorem search_on_empty_index:
  assumes "well_formed_query q" and "idx_entries (index s) = []"
  shows "search_vectors s q top_k = Inr []"
proof -
  from query_rows_well_formed [OF assms(1)] obtain rows where "query_rows q = Inr rows" ..
  with assms(2) show ?thesis by (simp add: search_vectors_def ntotal_def)
qed

theorem search_on_empty_index_witness:
  "well_formed_query (QList [1, 0]) \<and> idx_entries (index (fresh_store 2)) = [] \<and>
   search_vectors (fresh_store 2) (QList [1, 0]) 5 = Inr []"
proof -
  have a: "well_formed_query (QList [1, 0])" by simp
  have b: "idx_entries (index (fresh_store 2)) = []"
    by (simp add: fresh_store_def init_store_def)
  from search_on_empty_index [OF a b, of 5] a b show ?thesis by blast
qed

text \<open>
  C9. The empty list as the query raises \<^verbatim>\<open>ValueError\<close> in every state of the index
  and for every \<open>top_k\<close>, while a non-empty list against an empty index returns the
  empty list.
\<close>

theorem search_empty_query_raises:
  "search_vectors s (QList []) top_k = Inl ValueError \<and>
   search_vectors s (QNested []) top_k = Inl ValueError \<and>
   (idx_entries (index s) = [] \<longrightarrow> search_vectors s (QList (x # xs)) top_k = Inr [])"
  by (simp add: search_vectors_def ntotal_def l2_normalize_def)

theorem search_empty_query_raises_witness:
  "idx_entries (index (fresh_store 2)) = [] \<and>
   search_vectors (fresh_store 2) (QList []) 5 = Inl ValueError \<and>
   search_vectors (fresh_store 2) (QList [1, 0]) 5 = Inr [] \<and>
   search_vectors two_vector_store (QList []) 5 = Inl ValueError"
proof -
  have b: "idx_entries (index (fresh_store 2)) = []"
    by (simp add: fresh_store_def init_store_def)
  from search_empty_query_raises [of "fresh_store 2" 5 1 "[0]"] b
    search_empty_query_raises [of two_vector_store 5 1 "[0]"]
  show ?thesis by blast
qed

text \<open>
  C6, as the claim states it, fails: \<^verbatim>\<open>search_vectors\<close> has no check of \<open>top_k\<close>.
  With \<open>top_k\<close> 0 or negative on an index of two vectors, the engine is called with
  \<open>k = min(top_k, 2) \<le> 0\<close>, its assertion fails inside the \<^verbatim>\<open>try\<close> block, and the
  call returns the empty list as a normal result.
\<close>

theorem search_top_k_zero_returns_empty:
  "search_vectors two_vector_store (QList [1, 0]) 0 = Inr [] \<and>
   search_vectors two_vector_store (QList [1, 0]) (- 3) = Inr []"
  by (simp add: search_eval)

text \<open>
  C6, amended. For \<open>top_k \<le> 0\<close> the call returns the empty list for every
  well-formed query; it raises only for a query that is rejected for every \<open>top_k\<close>
  (the empty list, rows of different lengths, or a value that is neither a list nor an
  array), with the \<^verbatim>\<open>ValueError\<close> of the query.
\<close>

theorem search_nonpositive_top_k:
  assumes "top_k \<le> 0"
  shows "search_vectors s q top_k = (if well_formed_query q then Inr [] else Inl ValueError)"
proof (cases "well_formed_query q")
  case False
  then show ?thesis by (simp add: search_vectors_def query_rows_malformed)
next
  case True
  from query_rows_well_formed [OF True] obtain rows where rows: "query_rows q = Inr rows" ..
  have "min top_k (ntotal (index s)) \<le> 0" using assms by simp
  then have "\<exists>e. faiss_search (index s) rows (min top_k (ntotal (index s))) = Inl e"
    by (simp add: faiss_search_def)
  then show ?thesis using True rows by (auto simp: search_vectors_def)
qed

theorem search_nonpositive_top_k_witness:
  "(- 3 :: int) \<le> 0 \<and>
   search_vectors two_vector_store (QNested [[1, 0], [0, 1]]) (- 3) = Inr [] \<and>
   search_vectors two_vector_store QOther (- 3) = Inl ValueError"
proof -
  have a: "(- 3 :: int) \<le> 0" by simp
  from search_nonpositive_top_k [OF a, of two_vector_store "QNested [[1, 0], [0, 1]]"]
    search_nonpositive_top_k [OF a, of two_vector_store QOther] a
  show ?thesis by simp
qed

text \<open>
  C4, as the claim states it, fails on a batch of more than one query vector: the
  comprehension of \<^verbatim>\<open>search_vectors\<close> reads \<^verbatim>\<open>distances[0]\<close> and \<^verbatim>\<open>ids[0]\<close> only.
  The index holds \<open>[1, 0]\<close> under 0 and \<open>[0, 1]\<close> under 1; the batch of the two
  queries \<open>[1, 0]\<close> and \<open>[0, 1]\<close> with \<open>k = 1\<close> returns the one hit of the first
  query, and the hit of the second query (identifier 1, as the second line shows for
  that query alone) is not in the result.
\<close>

theorem batch_search_returns_first_query_only:
  "search_vectors two_vector_store (QNested [[1, 0], [0, 1]]) 1 = Inr [(1 / (1 + eps), 0)] \<and>
   search_vectors two_vector_store (QNested [[0, 1]]) 1 = Inr [(1 / (1 + eps), 1)]"
  by (simp add: search_eval eps_def)

text \<open>
  C4, amended. For a batch of rows of one length, a non-empty index and \<open>k > 0\<close>,
  the call returns one flat list, the hits of the first query vector of the batch: it is
  the result of searching for that vector alone, is ordered by descending inner-product
  score, has at most \<open>min(k, ntotal)\<close> entries (exactly so many when the vector has the
  dimension of the index and no stored identifier is \<open>-1\<close>), has no entry with
  identifier \<open>-1\<close>, and every entry is a stored identifier with its inner product
  against the normalised first query vector.
\<close>

theorem search_returns_hits_of_first_query:
  assumes "idx_entries (index s) \<noteq> []" and "0 < top_k"
    and "list_all (\<lambda>r'. length r' = length r) rs"
  shows "\<exists>hits. search_vectors s (QNested (r # rs)) top_k = Inr hits \<and>
           search_vectors s (QNested [r]) top_k = Inr hits \<and>
           sorted_wrt (\<lambda>a b. fst b \<le> fst a) hits \<and>
           int (length hits) \<le> min top_k (index_size s) \<and>
           - 1 \<notin> snd ` set hits \<and>
           set hits \<subseteq> (\<lambda>e. (inner_product (normalize_row r) (snd e), fst e)) `
                        set (idx_entries (index s)) \<and>
           (length r = idx_d (index s) \<and> - 1 \<notin> fst ` set (idx_entries (index s)) \<longrightarrow>
              int (length hits) = min top_k (index_size s))"
proof -
  let ?es = "idx_entries (index s)"
  let ?k = "nat (min top_k (ntotal (index s)))"
  let ?top = "take ?k (ranked ?es (normalize_row r))"
  define hits where "hits = (if length r = idx_d (index s) then filter (\<lambda>p. snd p \<noteq> - 1) ?top else [])"
  have batch: "search_vectors s (QNested (r # rs)) top_k = Inr hits"
    unfolding hits_def by (rule search_vectors_batch [OF assms])
  have single: "search_vectors s (QNested [r]) top_k = Inr hits"
    unfolding hits_def by (rule search_vectors_batch [OF assms(1,2)]) simp
  have sub: "set hits \<subseteq> set ?top" by (auto simp: hits_def)
  have top_sorted: "sorted_wrt (\<lambda>a b. fst b \<le> fst a) ?top"
    using sorted_ranked by (rule sorted_wrt_take)
  have sorted: "sorted_wrt (\<lambda>a b. fst b \<le> fst a) hits"
    using top_sorted by (simp add: hits_def sorted_wrt_filter)
  have len_top: "int (length ?top) = min top_k (index_size s)"
    using assms(2) by (simp add: index_size_def ntotal_def)
  have "length hits \<le> length ?top"
    by (simp add: hits_def del: length_take)
  with len_top have len: "int (length hits) \<le> min top_k (index_size s)" by linarith
  have sentinel: "- 1 \<notin> snd ` set hits" by (auto simp: hits_def)
  have "set ?top \<subseteq> set (ranked ?es (normalize_row r))" by (rule set_take_subset)
  with sub have scored: "set hits \<subseteq> (\<lambda>e. (inner_product (normalize_row r) (snd e), fst e)) ` set ?es"
    unfolding set_ranked by blast
  have full: "length r = idx_d (index s) \<and> - 1 \<notin> fst ` set ?es \<longrightarrow>
              int (length hits) = min top_k (index_size s)"
  proof
    assume a: "length r = idx_d (index s) \<and> - 1 \<notin> fst ` set ?es"
    have "snd ` set ?top \<subseteq> fst ` set ?es"
      using set_take_subset [of ?k "ranked ?es (normalize_row r)"]
      unfolding set_ranked by force
    with a have "\<forall>p \<in> set ?top. snd p \<noteq> - 1" by (metis image_eqI subsetD)
    then have "filter (\<lambda>p. snd p \<noteq> - 1) ?top = ?top" by (simp only: filter_True)
    with a have "hits = ?top" by (simp add: hits_def)
    with len_top show "int (length hits) = min top_k (index_size s)" by simp
  qed
  from batch single sorted len sentinel scored full show ?thesis by blast
qed

theorem search_returns_hits_of_first_query_witness:
  "idx_entries (index two_vector_store) \<noteq> [] \<and> (0::int) < 1 \<and>
   list_all (\<lambda>r'. length r' = length [1, 0 :: real]) [[0, 1 :: real]] \<and>
   search_vectors two_vector_store (QNested [[1, 0], [0, 1]]) 1 =
     search_vectors two_vector_store (QNested [[1, 0]]) 1 \<and>
   search_vectors two_vector_store (QNested [[1, 0], [0, 1]]) 1 = Inr [(1 / (1 + eps), 0)]"
proof -
  have a: "idx_entries (index two_vector_store) \<noteq> []" by (simp add: two_vector_store_def)
  have b: "(0::int) < 1" by simp
  have c: "list_all (\<lambda>r'. length r' = length [1, 0 :: real]) [[0, 1 :: real]]" by simp
  from search_returns_hits_of_first_query [OF a b c]
  have d: "search_vectors two_vector_store (QNested [[1, 0], [0, 1]]) 1 =
     search_vectors two_vector_store (QNested [[1, 0]]) 1"
    by auto
  have e: "search_vectors two_vector_store (QNested [[1, 0], [0, 1]]) 1 = Inr [(1 / (1 + eps), 0)]"
    by (simp add: search_eval eps_def)
  from a b c d e show ?thesis by blast
qed

end
